theory Spec2Isabelle
  imports Main "HOL-Library.Word"
begin

unbundle bit_operations_syntax

section \<open>The DPDK transmit path of vnet/devices/dpdk/device.c\<close>

text \<open>
  A shallow embedding of \<^verbatim>\<open>dpdk_replicate_packet_mb\<close>, \<^verbatim>\<open>tx_burst_vector_internal\<close>,
  \<^verbatim>\<open>dpdk_interface_tx_vector\<close> and \<^verbatim>\<open>dpdk_interface_tx\<close>.

  Conventions.
  \<^item> The C locals keep their widths: \<^verbatim>\<open>u32 n_packets\<close> is a \<open>32 word\<close>, \<^verbatim>\<open>int rv\<close> is a
    \<open>32 word\<close> read with \<open>sint\<close>, \<^verbatim>\<open>i16 delta0\<close> a \<open>16 word\<close> read with \<open>sint\<close>.
    The locals \<^verbatim>\<open>tx_head\<close>, \<^verbatim>\<open>tx_tail\<close> and \<^verbatim>\<open>i\<close> hold slot numbers below the ring
    size and are natural numbers.
  \<^item> \<^verbatim>\<open>ASSERT\<close> is the debug assertion of vppinfra, compiled out of production images.
    The embedding is that of the production image; the asserted conditions appear as
    hypotheses of the theorems that depend on them.
  \<^item> Tracing, pcap capture, prefetching and the vhost-user interrupt coalescing do not
    touch the ring, the packets or the counters and are left out.
  \<^item> The spin locks are modelled for one thread: a lock word that is non-zero stays
    non-zero, so spinning over locks that are all held never returns (\<open>None\<close>).
    A remainder by a \<^verbatim>\<open>tx_q_used\<close> of 0 traps and is \<open>None\<close> as well.
\<close>

type_synonym u8 = "8 word"
type_synonym u16 = "16 word"
type_synonym u32 = "32 word"
type_synonym u64 = "64 word"

subsection \<open>Packets\<close>

text \<open>
  \<^verbatim>\<open>struct rte_mbuf\<close> is declared by DPDK: the fields this file reads and writes, with the
  widths DPDK gives them. \<open>addr\<close> is the address of the segment and \<open>buf\<close> the bytes at
  \<^verbatim>\<open>buf_addr\<close>. A chain of segments linked through \<^verbatim>\<open>next\<close> is the first segment with
  the list of the segments behind it; a NULL \<^verbatim>\<open>next\<close> is the empty list.
\<close>

record rte_mbuf =
  addr :: nat
  buf :: "u8 list"
  data_off :: u16
  data_len :: u16
  pkt_len :: u32
  nb_segs :: u8
  port :: u8

type_synonym mbuf_chain = "rte_mbuf \<times> rte_mbuf list"

text \<open>
  \<^verbatim>\<open>vlib_buffer_t\<close> is declared by vlib: the fields this file reads and writes.
\<close>

record vlib_buffer =
  current_data :: u16
  current_length :: u16
  flags :: u32
  clone_count :: u32

datatype dpdk_tx_func_error = BAD_RETVAL | RING_FULL | PKT_DROP | REPL_FAIL

datatype dpdk_dev_type =
  VNET_DPDK_DEV_ETH | VNET_DPDK_DEV_VHOST_USER | VNET_DPDK_DEV_KNI | VNET_DPDK_DEV_UNKNOWN

text \<open>
  What the file takes from its headers and from its surroundings, as parameters:
  the constants \<^verbatim>\<open>DPDK_TX_RING_SIZE\<close>, \<^verbatim>\<open>RTE_PKTMBUF_HEADROOM\<close>, \<^verbatim>\<open>VLIB_BUFFER_REPL_FAIL\<close>
  and \<^verbatim>\<open>RTE_LIBRTE_KNI\<close>; vlib's \<^verbatim>\<open>vlib_buffer_length_in_chain\<close>; the fields of
  \<^verbatim>\<open>dpdk_device_t\<close> (\<^verbatim>\<open>dev_type\<close>, \<^verbatim>\<open>lockp\<close> non-null, \<^verbatim>\<open>tx_q_used\<close>, \<^verbatim>\<open>need_txlock\<close>,
  \<^verbatim>\<open>vlib_hw_if_index\<close>); \<^verbatim>\<open>vm->cpu_index\<close>; whether \<^verbatim>\<open>dm->flowcontrol_callback\<close> is
  set; and the transmit primitive (\<^verbatim>\<open>rte_eth_tx_burst\<close>, \<^verbatim>\<open>rte_vhost_enqueue_burst\<close>,
  \<^verbatim>\<open>rte_kni_tx_burst\<close>): \<open>tx_burst k n\<close> is the value the \<open>k\<close>-th invocation returns
  when it is offered \<open>n\<close> packets, as the C \<^verbatim>\<open>int rv\<close>.
\<close>

record config =
  DPDK_TX_RING_SIZE :: nat
  RTE_PKTMBUF_HEADROOM :: nat
  VLIB_BUFFER_REPL_FAIL :: u32
  RTE_LIBRTE_KNI :: bool
  vlib_buffer_length_in_chain :: "vlib_buffer \<Rightarrow> u64"
  dev_type :: dpdk_dev_type
  lockp :: bool
  tx_q_used :: nat
  need_txlock :: bool
  vlib_hw_if_index :: nat
  cpu_index :: nat
  flowcontrol_callback :: bool
  tx_burst :: "nat \<Rightarrow> u16 \<Rightarrow> u32"

text \<open>
  The mutable state. \<^verbatim>\<open>tx_ring_hdr_t\<close> is declared outside this file.
  Modelled from the spec: \<open>head\<close> and \<open>tail\<close> are monotonically increasing counters
  that are not wrapped, so \<open>tx_head\<close> and \<open>tx_tail\<close> are natural numbers.
  \<open>tx_vector\<close> gives the mbuf pointer in each slot, \<open>mbufs\<close> the chain at each mbuf
  address (the mbuf of buffer index \<open>bi\<close> lies at address \<open>bi\<close>: it is the header in
  front of the buffer), \<open>buffers\<close> the vlib buffer of each index, \<open>pool\<close> the free
  segments of \<^verbatim>\<open>bm->pktmbuf_pools[socket_id]\<close>, \<open>recycle\<close> is \<^verbatim>\<open>dm->recycle[my_cpu]\<close>.
  The collaborators are recorded by what they were given: \<open>errors\<close> by
  \<^verbatim>\<open>vlib_error_count\<close>, \<open>tx_error_counter\<close> by \<^verbatim>\<open>vlib_increment_simple_counter\<close>,
  \<open>freed\<close> the arguments of \<^verbatim>\<open>rte_pktmbuf_free\<close>, \<open>vlib_freed\<close> those of
  \<^verbatim>\<open>vlib_buffer_free\<close>, \<open>fc_calls\<close> those of the flow-control callback, \<open>tx_calls\<close>
  the queue, first slot and count of each invocation of the transmit primitive,
  \<open>locks\<close> the lock words \<^verbatim>\<open>*xd->lockp[q]\<close>.
\<close>

record state =
  tx_head :: nat
  tx_tail :: nat
  tx_vector :: "nat \<Rightarrow> nat"
  mbufs :: "nat \<Rightarrow> mbuf_chain"
  buffers :: "nat \<Rightarrow> vlib_buffer"
  pool :: "rte_mbuf list"
  recycle :: "nat list"
  errors :: "dpdk_tx_func_error \<Rightarrow> nat"
  tx_error_counter :: nat
  freed :: "nat list"
  vlib_freed :: "nat list"
  fc_calls :: "(nat \<times> u32) list"
  tx_calls :: "(nat \<times> nat \<times> u16) list"
  locks :: "nat \<Rightarrow> u32"

definition vlib_error_count :: "dpdk_tx_func_error \<Rightarrow> nat \<Rightarrow> state \<Rightarrow> state" where
  "vlib_error_count e n s = s\<lparr>errors := (errors s)(e := errors s e + n)\<rparr>"

subsection \<open>The allocator\<close>

text \<open>
  Modelled from the spec: the allocator is an external collaborator with
  \<^verbatim>\<open>allocate_descriptor(pool) -> descriptor | none\<close> and \<^verbatim>\<open>free(descriptor)\<close>.
  \<^verbatim>\<open>rte_pktmbuf_alloc\<close> takes a free segment and resets its header as DPDK does;
  \<^verbatim>\<open>rte_pktmbuf_free\<close> gives every segment of a chain back, first segment first, and
  is recorded in \<open>freed\<close> with the pointer it was given.
\<close>

definition rte_pktmbuf_reset :: "config \<Rightarrow> rte_mbuf \<Rightarrow> rte_mbuf" where
  "rte_pktmbuf_reset cfg m =
     m\<lparr>data_off := of_nat (min (RTE_PKTMBUF_HEADROOM cfg) (length (buf m))),
       data_len := 0, pkt_len := 0, nb_segs := 1, port := 0xff\<rparr>"

definition rte_pktmbuf_alloc :: "config \<Rightarrow> state \<Rightarrow> rte_mbuf option \<times> state" where
  "rte_pktmbuf_alloc cfg s =
     (case pool s of
        [] \<Rightarrow> (None, s)
      | m # rest \<Rightarrow> (Some (rte_pktmbuf_reset cfg m), s\<lparr>pool := rest\<rparr>))"

definition segs :: "mbuf_chain \<Rightarrow> rte_mbuf list" where
  "segs c = fst c # snd c"

definition free_chain :: "mbuf_chain \<Rightarrow> state \<Rightarrow> state" where
  "free_chain c s = s\<lparr>pool := rev (segs c) @ pool s\<rparr>"

definition rte_pktmbuf_free :: "nat \<Rightarrow> state \<Rightarrow> state" where
  "rte_pktmbuf_free p s = (free_chain (mbufs s p) s)\<lparr>freed := freed s @ [p]\<rparr>"

subsection \<open>tx\_burst\_vector\_internal\<close>

text \<open>
  \<^verbatim>\<open>while (__sync_lock_test_and_set (xd->lockp[queue_id], 1)) queue_id = (queue_id + 1) % xd->tx_q_used;\<close>
  After \<open>tx_q_used\<close> probes every lock has been seen held.
\<close>

definition take_lock :: "nat \<Rightarrow> state \<Rightarrow> state" where
  "take_lock queue_id s = s\<lparr>locks := (locks s)(queue_id := 1)\<rparr>"

primrec spin_lock :: "nat \<Rightarrow> config \<Rightarrow> nat \<Rightarrow> state \<Rightarrow> (nat \<times> state) option" where
  "spin_lock 0 cfg queue_id s = None"
| "spin_lock (Suc n) cfg queue_id s =
     (if locks s queue_id \<noteq> 0
      then spin_lock n cfg ((queue_id + 1) mod tx_q_used cfg) s
      else Some (queue_id, take_lock queue_id s))"

definition unlock :: "nat \<Rightarrow> state \<Rightarrow> state" where
  "unlock queue_id s = s\<lparr>locks := (locks s)(queue_id := 0)\<rparr>"

text \<open>The number of packets of the slice that starts at the tail: up to the head, or up
  to the wrap point.\<close>

definition slice_len :: "config \<Rightarrow> nat \<Rightarrow> nat \<Rightarrow> nat" where
  "slice_len cfg txh txt =
     (if txh > txt then txh - txt else DPDK_TX_RING_SIZE cfg - txt)"

text \<open>
  The two calls of the transmit primitive that each device branch makes, and the retry
  allowance each leaves: unchanged without a wrap, 1 or 0 after the slice up to the wrap
  point.
\<close>

definition burst :: "config \<Rightarrow> nat \<Rightarrow> nat \<Rightarrow> nat \<Rightarrow> nat \<Rightarrow> state \<Rightarrow> u32 \<times> nat \<times> state" where
  "burst cfg txh txt n_retry queue_id s =
     (let cnt = (of_nat (slice_len cfg txh txt) :: u16);
          rv = tx_burst cfg (length (tx_calls s)) cnt;
          s' = s\<lparr>tx_calls := tx_calls s @ [(queue_id, txt, cnt)]\<rparr>
      in if txh > txt then (rv, n_retry, s')
         else (rv, (if rv = of_nat (DPDK_TX_RING_SIZE cfg - txt) then 1 else 0), s'))"

text \<open>\<^verbatim>\<open>int c = rv; while (c--) rte_pktmbuf_free (tx_vector[tx_tail+c]);\<close>\<close>

primrec free_slots :: "nat \<Rightarrow> nat \<Rightarrow> state \<Rightarrow> state" where
  "free_slots 0 base s = s"
| "free_slots (Suc c) base s = free_slots c base (rte_pktmbuf_free (tx_vector s (base + c)) s)"

text \<open>One pass through the body of the \<^verbatim>\<open>do ... while\<close>, up to and including the release of
  the lock: the value \<open>rv\<close>, the retry allowance, the queue and the state.\<close>

definition tx_attempt ::
  "config \<Rightarrow> nat \<Rightarrow> nat \<Rightarrow> nat \<Rightarrow> state \<Rightarrow> (u32 \<times> nat \<times> nat \<times> state) option" where
  "tx_attempt cfg txh n_retry queue_id s =
     (let txt = tx_tail s mod DPDK_TX_RING_SIZE cfg;
          locked = (dev_type cfg \<noteq> VNET_DPDK_DEV_VHOST_USER \<and> lockp cfg)
      in case (if locked
               then (if tx_q_used cfg = 0 then None
                     else spin_lock (tx_q_used cfg) cfg (queue_id mod tx_q_used cfg) s)
               else Some (queue_id, s)) of
           None \<Rightarrow> None
         | Some (q1, s1) \<Rightarrow>
            (case (if dev_type cfg = VNET_DPDK_DEV_ETH
                   then (case burst cfg txh txt n_retry q1 s1 of
                           (rv, r, s2) \<Rightarrow> Some (rv, r, q1, s2))
                   else if dev_type cfg = VNET_DPDK_DEV_VHOST_USER
                   then (case (if need_txlock cfg then spin_lock 1 cfg 0 s1 else Some (q1, s1)) of
                           None \<Rightarrow> None
                         | Some (q2, s2) \<Rightarrow>
                            (case burst cfg txh txt n_retry q2 s2 of
                               (rv, r, s3) \<Rightarrow>
                                 let s4 = (if 0 <s rv then free_slots (nat (sint rv)) txt s3 else s3)
                                 in Some (rv, r, q2, if need_txlock cfg then unlock q2 s4 else s4)))
                   else if RTE_LIBRTE_KNI cfg \<and> dev_type cfg = VNET_DPDK_DEV_KNI
                   then (case burst cfg txh txt n_retry q1 s1 of
                           (rv, r, s2) \<Rightarrow> Some (rv, r, q1, s2))
                   else Some (0, n_retry, q1, s1)) of
               None \<Rightarrow> None
             | Some (rv, r, q3, s5) \<Rightarrow>
                 Some (rv, r, q3, if locked then unlock q3 s5 else s5)))"

text \<open>
  The \<^verbatim>\<open>do ... while (rv && n_packets && (n_retry>0))\<close> loop with the error return inside
  it. The loop has no bound of its own, so the embedding takes fuel: \<open>None\<close> is a run
  that is still looping when the fuel is spent (or that never got a lock).
\<close>

fun tx_loop :: "nat \<Rightarrow> config \<Rightarrow> nat \<Rightarrow> u32 \<Rightarrow> nat \<Rightarrow> nat \<Rightarrow> state \<Rightarrow> (u32 \<times> state) option" where
  "tx_loop 0 cfg txh n_packets n_retry queue_id s = None"
| "tx_loop (Suc fuel) cfg txh n_packets n_retry queue_id s =
     (case tx_attempt cfg txh n_retry queue_id s of
        None \<Rightarrow> None
      | Some (rv, r, q, s1) \<Rightarrow>
          if rv <s 0
          then Some (n_packets, vlib_error_count BAD_RETVAL 1 s1)
          else
            let s2 = s1\<lparr>tx_tail := tx_tail s1 + unat (ucast rv :: u16)\<rparr>;
                n = n_packets - ucast (ucast rv :: u16)
            in if rv \<noteq> 0 \<and> n \<noteq> 0 \<and> r > 0
               then tx_loop fuel cfg txh n r q s2
               else Some (n, s2))"

definition tx_burst_vector_internal :: "nat \<Rightarrow> config \<Rightarrow> state \<Rightarrow> (u32 \<times> state) option" where
  "tx_burst_vector_internal fuel cfg s =
     (let n_packets = (of_int (int (tx_head s) - int (tx_tail s)) :: u32);
          txh = tx_head s mod DPDK_TX_RING_SIZE cfg;
          n_retry = (if flowcontrol_callback cfg then 0 else 255)
      in tx_loop fuel cfg txh n_packets n_retry (cpu_index cfg) s)"


subsection \<open>dpdk\_replicate\_packet\_mb\<close>

text \<open>\<^verbatim>\<open>if (first_mb) rte_pktmbuf_free(first_mb);\<close> on the copy built so far.\<close>

definition free_partial :: "rte_mbuf list \<Rightarrow> state \<Rightarrow> state" where
  "free_partial copy s =
     (case copy of
        [] \<Rightarrow> s
      | first_mb # rest \<Rightarrow> (free_chain (first_mb, rest) s)\<lparr>freed := freed s @ [addr first_mb]\<rparr>)"

text \<open>
  What one pass of the copy loop writes into the segment \<open>new_mb\<close> it allocated for the
  segment \<open>pkt_mb\<close> of the original: the packet information when it is the first segment
  (\<^verbatim>\<open>first_mb == 0\<close>), the data length, and \<^verbatim>\<open>memcpy (new_mb->buf_addr, pkt_mb->buf_addr, copy_bytes)\<close>,
  which overwrites the first \<open>copy_bytes\<close> bytes of the new buffer.
\<close>

definition copy_seg :: "config \<Rightarrow> bool \<Rightarrow> rte_mbuf \<Rightarrow> rte_mbuf \<Rightarrow> rte_mbuf" where
  "copy_seg cfg first pkt_mb new_mb =
     (let m1 = (if first
                then new_mb\<lparr>pkt_len := pkt_len pkt_mb, nb_segs := nb_segs pkt_mb, port := port pkt_mb\<rparr>
                else new_mb);
          m2 = m1\<lparr>data_len := data_len pkt_mb\<rparr>;
          copy_bytes = unat (data_len pkt_mb) + RTE_PKTMBUF_HEADROOM cfg
      in m2\<lparr>buf := take copy_bytes (buf pkt_mb) @ drop copy_bytes (buf m2)\<rparr>)"

text \<open>
  The \<^verbatim>\<open>for (nb_segs_left = nb_segs; nb_segs_left; nb_segs_left--)\<close> loop. \<open>copy\<close> is the
  chain from \<^verbatim>\<open>first_mb\<close> (empty while \<^verbatim>\<open>first_mb\<close> is 0), \<open>pkt_mb\<close> the segments of
  the original not yet copied.
\<close>

primrec replicate_segs ::
  "config \<Rightarrow> nat \<Rightarrow> rte_mbuf list \<Rightarrow> rte_mbuf list \<Rightarrow> state \<Rightarrow> rte_mbuf list option \<times> state" where
  "replicate_segs cfg 0 copy pkt_mb s = (Some copy, s)"
| "replicate_segs cfg (Suc nb_segs_left) copy pkt_mb s =
     (case pkt_mb of
        [] \<Rightarrow> (None, free_partial copy s)
      | p # rest \<Rightarrow>
          (case rte_pktmbuf_alloc cfg s of
             (None, s1) \<Rightarrow> (None, free_partial copy s1)
           | (Some new_mb, s1) \<Rightarrow>
               replicate_segs cfg nb_segs_left (copy @ [copy_seg cfg (copy = []) p new_mb]) rest s1))"

text \<open>The result is the address of the first segment of the copy, or \<open>None\<close> for NULL.\<close>

definition dpdk_replicate_packet_mb :: "config \<Rightarrow> nat \<Rightarrow> state \<Rightarrow> nat option \<times> state" where
  "dpdk_replicate_packet_mb cfg b s =
     (let pkt_mb = mbufs s b
      in case replicate_segs cfg (unat (nb_segs (fst pkt_mb))) [] (segs pkt_mb) s of
           (None, s') \<Rightarrow> (None, s')
         | (Some copy, s') \<Rightarrow>
             (case copy of
                [] \<Rightarrow> (None, s')
              | first_mb # rest \<Rightarrow>
                  (Some (addr first_mb),
                   s'\<lparr>mbufs := (mbufs s')(addr first_mb := (first_mb, rest))\<rparr>)))"

subsection \<open>dpdk\_interface\_tx\<close>

definition upd_mbuf :: "nat \<Rightarrow> (rte_mbuf \<Rightarrow> rte_mbuf) \<Rightarrow> state \<Rightarrow> state" where
  "upd_mbuf p f s = s\<lparr>mbufs := (mbufs s)(p := apfst f (mbufs s p))\<rparr>"

definition upd_buffer :: "nat \<Rightarrow> (vlib_buffer \<Rightarrow> vlib_buffer) \<Rightarrow> state \<Rightarrow> state" where
  "upd_buffer bi f s = s\<lparr>buffers := (buffers s)(bi := f (buffers s bi))\<rparr>"

definition repl_failed :: "config \<Rightarrow> vlib_buffer \<Rightarrow> bool" where
  "repl_failed cfg b \<longleftrightarrow> flags b AND VLIB_BUFFER_REPL_FAIL cfg \<noteq> 0"

text \<open>
  The replication of one packet with a non-zero \<^verbatim>\<open>clone_count\<close>: the mbuf to transmit
  (\<^verbatim>\<open>mb0\<close>) and the state.
\<close>

definition tx_clone :: "config \<Rightarrow> nat \<Rightarrow> state \<Rightarrow> nat \<times> state" where
  "tx_clone cfg bi0 s =
     (case dpdk_replicate_packet_mb cfg bi0 s of
        (None, s1) \<Rightarrow>
          (bi0, (upd_buffer bi0 (\<lambda>b. b\<lparr>flags := flags b OR VLIB_BUFFER_REPL_FAIL cfg\<rparr>)
                   (vlib_error_count REPL_FAIL 1 s1))\<lparr>recycle := recycle s1 @ [bi0]\<rparr>)
      | (Some mb0_new, s1) \<Rightarrow> (mb0_new, s1\<lparr>recycle := recycle s1 @ [bi0]\<rparr>))"

text \<open>\<^verbatim>\<open>(u16)((i16) x + delta)\<close>\<close>

definition add_i16 :: "u16 \<Rightarrow> u16 \<Rightarrow> u16" where
  "add_i16 x delta = word_of_int (sint x + sint delta)"

text \<open>\<^verbatim>\<open>delta0 = (b0->flags & VLIB_BUFFER_REPL_FAIL) ? 0 : vlib_buffer_length_in_chain (vm, b0) - (i16) mb0->pkt_len\<close>\<close>

definition tx_delta :: "config \<Rightarrow> vlib_buffer \<Rightarrow> rte_mbuf \<Rightarrow> u16" where
  "tx_delta cfg b mb =
     (if repl_failed cfg b then 0
      else ucast (vlib_buffer_length_in_chain cfg b - scast (ucast (pkt_len mb) :: u16)))"

text \<open>\<^verbatim>\<open>(b0->flags & VLIB_BUFFER_REPL_FAIL) ? mb0->data_off : (u16)(RTE_PKTMBUF_HEADROOM + b0->current_data)\<close>\<close>

definition tx_data_off :: "config \<Rightarrow> vlib_buffer \<Rightarrow> rte_mbuf \<Rightarrow> u16" where
  "tx_data_off cfg b mb =
     (if repl_failed cfg b then data_off mb
      else word_of_int (int (RTE_PKTMBUF_HEADROOM cfg) + sint (current_data b)))"

text \<open>\<^verbatim>\<open>tx_vector[i % DPDK_TX_RING_SIZE] = mb0; i++;\<close>\<close>

definition ring_put :: "config \<Rightarrow> nat \<Rightarrow> nat \<Rightarrow> state \<Rightarrow> nat \<times> state" where
  "ring_put cfg mb i s =
     (i + 1, s\<lparr>tx_vector := (tx_vector s)(i mod DPDK_TX_RING_SIZE cfg := mb)\<rparr>)"

text \<open>
  The reconciliation of the mbuf \<open>mb0\<close> with the buffer \<open>bi0\<close>:
  \<^verbatim>\<open>delta0\<close>, \<^verbatim>\<open>new_data_len0\<close>, \<^verbatim>\<open>new_pkt_len0\<close> and the four assignments to
  \<^verbatim>\<open>b0->current_length\<close>, \<^verbatim>\<open>mb0->data_len\<close>, \<^verbatim>\<open>mb0->pkt_len\<close> and \<^verbatim>\<open>mb0->data_off\<close>.
\<close>

definition tx_reconcile :: "config \<Rightarrow> nat \<Rightarrow> nat \<Rightarrow> state \<Rightarrow> state" where
  "tx_reconcile cfg bi0 mb0 s1 =
     (let delta0 = tx_delta cfg (buffers s1 bi0) (fst (mbufs s1 mb0));
          new_data_len0 = add_i16 (data_len (fst (mbufs s1 mb0))) delta0;
          new_pkt_len0 = add_i16 (ucast (pkt_len (fst (mbufs s1 mb0)))) delta0;
          s2 = upd_buffer bi0 (\<lambda>b. b\<lparr>current_length := new_data_len0\<rparr>) s1;
          s3 = upd_mbuf mb0 (\<lambda>m. m\<lparr>data_len := new_data_len0\<rparr>) s2;
          s4 = upd_mbuf mb0 (\<lambda>m. m\<lparr>pkt_len := ucast new_pkt_len0\<rparr>) s3
      in upd_mbuf mb0 (\<lambda>m. m\<lparr>data_off := tx_data_off cfg (buffers s4 bi0) m\<rparr>) s4)"

text \<open>The same for the two packets of the first loop, with the reads and the writes in
  the order of the source.\<close>

definition tx_reconcile2 :: "config \<Rightarrow> nat \<Rightarrow> nat \<Rightarrow> nat \<Rightarrow> nat \<Rightarrow> state \<Rightarrow> state" where
  "tx_reconcile2 cfg bi0 bi1 mb0 mb1 s1 =
     (let delta0 = tx_delta cfg (buffers s1 bi0) (fst (mbufs s1 mb0));
          delta1 = tx_delta cfg (buffers s1 bi1) (fst (mbufs s1 mb1));
          new_data_len0 = add_i16 (data_len (fst (mbufs s1 mb0))) delta0;
          new_data_len1 = add_i16 (data_len (fst (mbufs s1 mb1))) delta1;
          new_pkt_len0 = add_i16 (ucast (pkt_len (fst (mbufs s1 mb0)))) delta0;
          new_pkt_len1 = add_i16 (ucast (pkt_len (fst (mbufs s1 mb1)))) delta1;
          s2 = upd_buffer bi0 (\<lambda>b. b\<lparr>current_length := new_data_len0\<rparr>) s1;
          s3 = upd_buffer bi1 (\<lambda>b. b\<lparr>current_length := new_data_len1\<rparr>) s2;
          s4 = upd_mbuf mb0 (\<lambda>m. m\<lparr>data_len := new_data_len0\<rparr>) s3;
          s5 = upd_mbuf mb1 (\<lambda>m. m\<lparr>data_len := new_data_len1\<rparr>) s4;
          s6 = upd_mbuf mb0 (\<lambda>m. m\<lparr>pkt_len := ucast new_pkt_len0\<rparr>) s5;
          s7 = upd_mbuf mb1 (\<lambda>m. m\<lparr>pkt_len := ucast new_pkt_len1\<rparr>) s6;
          s8 = upd_mbuf mb0 (\<lambda>m. m\<lparr>data_off := tx_data_off cfg (buffers s7 bi0) m\<rparr>) s7
      in upd_mbuf mb1 (\<lambda>m. m\<lparr>data_off := tx_data_off cfg (buffers s8 bi1) m\<rparr>) s8)"

text \<open>\<^verbatim>\<open>if (b0->clone_count != 0) { ... }\<close>: the mbuf to transmit and the state.\<close>

definition tx_clone_if :: "config \<Rightarrow> nat \<Rightarrow> state \<Rightarrow> nat \<times> state" where
  "tx_clone_if cfg bi0 s =
     (if clone_count (buffers s bi0) \<noteq> 0 then tx_clone cfg bi0 s else (bi0, s))"

text \<open>\<^verbatim>\<open>if ((b0->flags & VLIB_BUFFER_REPL_FAIL) == 0) { tx_vector[i % DPDK_TX_RING_SIZE] = mb0; i++; }\<close>\<close>

definition ring_put_unless_failed :: "config \<Rightarrow> nat \<Rightarrow> nat \<Rightarrow> nat \<Rightarrow> state \<Rightarrow> nat \<times> state" where
  "ring_put_unless_failed cfg bi0 mb0 i s =
     (if \<not> repl_failed cfg (buffers s bi0) then ring_put cfg mb0 i s else (i, s))"

text \<open>The body of the \<^verbatim>\<open>while (n_left > 0)\<close> loop, for the packet \<open>bi0\<close>.\<close>

definition tx_single :: "config \<Rightarrow> nat \<Rightarrow> nat \<Rightarrow> state \<Rightarrow> nat \<times> state" where
  "tx_single cfg bi0 i s =
     (case tx_clone_if cfg bi0 s of
        (mb0, s1) \<Rightarrow> ring_put_unless_failed cfg bi0 mb0 i (tx_reconcile cfg bi0 mb0 s1))"

text \<open>The body of the \<^verbatim>\<open>while (n_left >= 4)\<close> loop, for the packets \<open>bi0\<close> and \<open>bi1\<close>.\<close>

definition tx_dual :: "config \<Rightarrow> nat \<Rightarrow> nat \<Rightarrow> nat \<Rightarrow> state \<Rightarrow> nat \<times> state" where
  "tx_dual cfg bi0 bi1 i s =
     (let any_clone = clone_count (buffers s bi0) OR clone_count (buffers s bi1)
      in if any_clone = 0
         then (let s9 = tx_reconcile2 cfg bi0 bi1 bi0 bi1 s
               in case ring_put cfg bi0 i s9 of (i1, sb) \<Rightarrow> ring_put cfg bi1 i1 sb)
         else (case tx_clone_if cfg bi0 s of
                 (mb0, sa) \<Rightarrow>
                   (case tx_clone_if cfg bi1 sa of
                      (mb1, s1) \<Rightarrow>
                        (let s9 = tx_reconcile2 cfg bi0 bi1 mb0 mb1 s1
                         in case ring_put_unless_failed cfg bi0 mb0 i s9 of
                              (i1, sb) \<Rightarrow> ring_put_unless_failed cfg bi1 mb1 i1 sb))))"

text \<open>The two loops over the frame: two packets at a time while at least four are left,
  then one at a time.\<close>

fun tx_dual_loop :: "config \<Rightarrow> nat list \<Rightarrow> nat \<Rightarrow> state \<Rightarrow> nat list \<times> nat \<times> state" where
  "tx_dual_loop cfg (bi0 # bi1 # pi0 # pi1 # rest) i s =
     (case tx_dual cfg bi0 bi1 i s of
        (i', s') \<Rightarrow> tx_dual_loop cfg (pi0 # pi1 # rest) i' s')"
| "tx_dual_loop cfg from i s = (from, i, s)"

fun tx_single_loop :: "config \<Rightarrow> nat list \<Rightarrow> nat \<Rightarrow> state \<Rightarrow> nat \<times> state" where
  "tx_single_loop cfg [] i s = (i, s)"
| "tx_single_loop cfg (bi0 # rest) i s =
     (case tx_single cfg bi0 i s of (i', s') \<Rightarrow> tx_single_loop cfg rest i' s')"

text \<open>\<^verbatim>\<open>while (n_packets--) rte_pktmbuf_free (mbuf of from[n_packets]);\<close>\<close>

primrec free_frame :: "nat \<Rightarrow> nat list \<Rightarrow> state \<Rightarrow> state" where
  "free_frame 0 from s = s"
| "free_frame (Suc n) from s = free_frame n from (rte_pktmbuf_free (from ! n) s)"

text \<open>The part of \<^verbatim>\<open>dpdk_interface_tx\<close> between the overflow check and the burst: the
  packets of the frame are written to the ring and the head is advanced.\<close>

definition tx_enqueue :: "config \<Rightarrow> nat list \<Rightarrow> state \<Rightarrow> state" where
  "tx_enqueue cfg from s =
     (let n_packets = (of_nat (length from) :: u32);
          i = tx_head s mod DPDK_TX_RING_SIZE cfg
      in case tx_dual_loop cfg from i s of
           (from', i', s1) \<Rightarrow>
             (case tx_single_loop cfg from' i' s1 of
                (i'', s2) \<Rightarrow> s2\<lparr>tx_head := tx_head s2 + unat n_packets\<rparr>))"

text \<open>The part after the burst returned \<open>n_packets\<close>: flow control or drop, ring reset,
  recycling.\<close>

definition tx_finish :: "config \<Rightarrow> u32 \<Rightarrow> state \<Rightarrow> state" where
  "tx_finish cfg n_packets s =
     (let s1 =
            (if flowcontrol_callback cfg
             then (if n_packets \<noteq> 0
                   then s\<lparr>fc_calls := fc_calls s @
                            [(vlib_hw_if_index cfg, of_int (int (tx_head s) - int (tx_tail s)))]\<rparr>
                   else s\<lparr>tx_head := 0, tx_tail := 0\<rparr>)
             else
               (let sd = (if n_packets \<noteq> 0
                          then free_slots (unat n_packets) (tx_tail s)
                                 (vlib_error_count PKT_DROP (unat n_packets)
                                    (s\<lparr>tx_error_counter := tx_error_counter s + unat n_packets\<rparr>))
                          else s)
                in sd\<lparr>tx_head := 0, tx_tail := 0\<rparr>))
      in if recycle s1 \<noteq> []
         then s1\<lparr>vlib_freed := vlib_freed s1 @ recycle s1, recycle := []\<rparr>
         else s1)"

text \<open>The result is the returned count with the state.\<close>

definition dpdk_interface_tx :: "nat \<Rightarrow> config \<Rightarrow> nat list \<Rightarrow> state \<Rightarrow> (u32 \<times> state) option" where
  "dpdk_interface_tx fuel cfg from s =
     (let n_packets = (of_nat (length from) :: u32);
          n_on_ring = (of_int (int (tx_head s) - int (tx_tail s)) :: u32)
      in if n_on_ring + n_packets > of_nat (DPDK_TX_RING_SIZE cfg)
         then Some (n_on_ring,
                    free_frame (unat n_packets) from
                      (vlib_error_count RING_FULL (unat n_packets) s))
         else
           (let s1 = tx_enqueue cfg from s;
                n_on_ring' = (of_int (int (tx_head s1) - int (tx_tail s1)) :: u32)
            in case tx_burst_vector_internal fuel cfg s1 of
                 None \<Rightarrow> None
               | Some (n_left, s2) \<Rightarrow> Some (n_on_ring' - n_left, tx_finish cfg n_left s2)))"

subsection \<open>Conditions used in the statements\<close>

text \<open>The ring size is positive and the count of a slice fits the \<^verbatim>\<open>uint16_t\<close> it is cast to.\<close>

definition size_ok :: "config \<Rightarrow> bool" where
  "size_ok cfg \<longleftrightarrow> 0 < DPDK_TX_RING_SIZE cfg \<and> DPDK_TX_RING_SIZE cfg < 2 ^ 16"


text \<open>The device is of a type the burst loop has a branch for.\<close>

definition known_dev :: "config \<Rightarrow> bool" where
  "known_dev cfg \<longleftrightarrow>
     dev_type cfg = VNET_DPDK_DEV_ETH \<or> dev_type cfg = VNET_DPDK_DEV_VHOST_USER \<or>
     (RTE_LIBRTE_KNI cfg \<and> dev_type cfg = VNET_DPDK_DEV_KNI)"

text \<open>Where the device takes a lock, a lock it can take is free.\<close>

definition lock_available :: "config \<Rightarrow> state \<Rightarrow> bool" where
  "lock_available cfg s \<longleftrightarrow>
     (dev_type cfg \<noteq> VNET_DPDK_DEV_VHOST_USER \<and> lockp cfg \<longrightarrow>
        (\<exists>j<tx_q_used cfg. locks s j = 0)) \<and>
     (dev_type cfg = VNET_DPDK_DEV_VHOST_USER \<and> need_txlock cfg \<longrightarrow> locks s 0 = 0)"

text \<open>The state after the transmit primitive returned \<open>rv\<close> for the slice at slot \<open>t\<close>:
  the vhost-user branch frees the packets that were accepted.\<close>

definition sent :: "config \<Rightarrow> u32 \<Rightarrow> nat \<Rightarrow> state \<Rightarrow> state" where
  "sent cfg rv t s =
     (if dev_type cfg = VNET_DPDK_DEV_VHOST_USER \<and> 0 <s rv
      then free_slots (nat (sint rv)) t s else s)"

text \<open>What a burst leaves as it was: everything but the tail, the log of the transmit
  primitive, the error counters and what the vhost-user branch frees.\<close>

definition burst_frame :: "state \<Rightarrow> state \<Rightarrow> bool" where
  "burst_frame s s' \<longleftrightarrow>
     tx_head s' = tx_head s \<and> tx_vector s' = tx_vector s \<and> mbufs s' = mbufs s \<and>
     buffers s' = buffers s \<and> recycle s' = recycle s \<and>
     tx_error_counter s' = tx_error_counter s \<and> vlib_freed s' = vlib_freed s \<and>
     fc_calls s' = fc_calls s \<and> locks s' = locks s"

text \<open>What the enqueue part of \<^verbatim>\<open>dpdk_interface_tx\<close> leaves as it was.\<close>

definition enqueue_frame :: "state \<Rightarrow> state \<Rightarrow> bool" where
  "enqueue_frame s s' \<longleftrightarrow>
     tx_head s' = tx_head s \<and> tx_tail s' = tx_tail s \<and> locks s' = locks s \<and>
     fc_calls s' = fc_calls s \<and> tx_calls s' = tx_calls s \<and> vlib_freed s' = vlib_freed s \<and>
     tx_error_counter s' = tx_error_counter s"


text \<open>A descriptor whose total length is cut to its low 16 bits.\<close>

definition low16 :: "rte_mbuf \<Rightarrow> rte_mbuf" where
  "low16 m = m\<lparr>pkt_len := ucast (ucast (pkt_len m) :: u16)\<rparr>"

text \<open>The copies of the segments \<open>ps\<close> made in the free segments \<open>ms\<close>, as long as both
  last; \<open>first\<close> says whether the first of them is the first segment of the copy.\<close>

fun copies :: "config \<Rightarrow> bool \<Rightarrow> rte_mbuf list \<Rightarrow> rte_mbuf list \<Rightarrow> rte_mbuf list" where
  "copies cfg first (p # ps) (m # ms) =
     copy_seg cfg first p (rte_pktmbuf_reset cfg m) # copies cfg False ps ms"
| "copies cfg first ps ms = []"


text \<open>The state after a replication of \<open>bi\<close> that failed was recorded.\<close>

definition repl_fail_recorded :: "config \<Rightarrow> nat \<Rightarrow> state \<Rightarrow> state" where
  "repl_fail_recorded cfg bi s1 =
     (upd_buffer bi (\<lambda>b. b\<lparr>flags := flags b OR VLIB_BUFFER_REPL_FAIL cfg\<rparr>)
        (vlib_error_count REPL_FAIL 1 s1))\<lparr>recycle := recycle s1 @ [bi]\<rparr>"

subsection \<open>Concrete devices, rings and packets\<close>

text \<open>An Ethernet device with a queue of its own (no lock), a ring of \<open>sz\<close> slots and
  the transmit primitive \<open>rsp\<close>.\<close>

definition eth_config :: "bool \<Rightarrow> nat \<Rightarrow> (nat \<Rightarrow> u16 \<Rightarrow> u32) \<Rightarrow> config" where
  "eth_config fc sz rsp =
     \<lparr>DPDK_TX_RING_SIZE = sz, RTE_PKTMBUF_HEADROOM = 128, VLIB_BUFFER_REPL_FAIL = 16,
      RTE_LIBRTE_KNI = False, vlib_buffer_length_in_chain = (\<lambda>b. ucast (current_length b)),
      dev_type = VNET_DPDK_DEV_ETH, lockp = False, tx_q_used = 1, need_txlock = False,
      vlib_hw_if_index = 7, cpu_index = 0, flowcontrol_callback = fc, tx_burst = rsp\<rparr>"

text \<open>A data room of \<open>n\<close> zero bytes.\<close>

definition zeros :: "nat \<Rightarrow> u8 list" where
  "zeros n = replicate n 0"

text \<open>A segment at address \<open>a\<close> with a data room of \<open>bs\<close>, and a one-segment packet of
  total length \<open>len\<close>.\<close>

definition seg :: "nat \<Rightarrow> u8 list \<Rightarrow> rte_mbuf" where
  "seg a bs = \<lparr>addr = a, buf = bs, data_off = 128, data_len = 0, pkt_len = 0, nb_segs = 1, port = 0\<rparr>"

definition packet :: "nat \<Rightarrow> u32 \<Rightarrow> mbuf_chain" where
  "packet a len = ((seg a (zeros 256))\<lparr>data_len := ucast len, pkt_len := len\<rparr>, [])"

text \<open>A ring with the head at \<open>h\<close> and the tail at \<open>t\<close>, every slot \<open>i\<close> holding the mbuf
  at \<open>100 + i\<close>; every buffer \<open>bi\<close> is a one-segment packet of 64 bytes with the clone
  count \<open>cc bi\<close>; the pool holds \<open>free\<close>.\<close>

definition ring_state :: "nat \<Rightarrow> nat \<Rightarrow> (nat \<Rightarrow> u32) \<Rightarrow> rte_mbuf list \<Rightarrow> state" where
  "ring_state h t cc free =
     \<lparr>tx_head = h, tx_tail = t, tx_vector = (\<lambda>i. 100 + i), mbufs = (\<lambda>a. packet a 64),
      buffers = (\<lambda>bi. \<lparr>current_data = 0, current_length = 64, flags = 0, clone_count = cc bi\<rparr>),
      pool = free, recycle = [], errors = (\<lambda>e. 0), tx_error_counter = 0, freed = [],
      vlib_freed = [], fc_calls = [], tx_calls = [], locks = (\<lambda>q. 0)\<rparr>"

text \<open>A packet of 65536 bytes in two segments of 32768 bytes.\<close>

definition big_packet :: "nat \<Rightarrow> mbuf_chain" where
  "big_packet a =
     ((seg a (zeros 32896))\<lparr>data_len := 0x8000, pkt_len := 0x10000, nb_segs := 2\<rparr>,
      [(seg (a + 1000) (zeros 32896))\<lparr>data_len := 0x8000\<rparr>])"

text \<open>An empty ring where every buffer is such a packet, marked for replication, and the
  pool holds \<open>free\<close>.\<close>

definition big_state :: "rte_mbuf list \<Rightarrow> state" where
  "big_state free = (ring_state 0 0 (\<lambda>bi. 1) free)\<lparr>mbufs := big_packet\<rparr>"

text \<open>A transmit primitive that accepts what it is offered, up to \<open>m\<close> packets a call.\<close>

definition accept_up_to :: "nat \<Rightarrow> nat \<Rightarrow> u16 \<Rightarrow> u32" where
  "accept_up_to m k n = (if unat n \<le> m then ucast n else of_nat m)"

section \<open>Properties\<close>

subsection \<open>Machine integers\<close>




lemma ucast16_id: "unat (rv::u32) < 2 ^ 16 \<Longrightarrow> (ucast (ucast rv :: u16) :: u32) = rv"
  by (simp add: word_unat_eq_iff unsigned_ucast_eq unsigned_take_bit_eq take_bit_nat_eq_self)


subsection \<open>Locks and slices\<close>







subsection \<open>One attempt\<close>

lemma free_chain_fields [simp]:
  "tx_head (free_chain c s) = tx_head s" "tx_tail (free_chain c s) = tx_tail s"
  "tx_vector (free_chain c s) = tx_vector s" "mbufs (free_chain c s) = mbufs s"
  "buffers (free_chain c s) = buffers s" "recycle (free_chain c s) = recycle s"
  "errors (free_chain c s) = errors s" "tx_error_counter (free_chain c s) = tx_error_counter s"
  "vlib_freed (free_chain c s) = vlib_freed s" "fc_calls (free_chain c s) = fc_calls s"
  "tx_calls (free_chain c s) = tx_calls s" "locks (free_chain c s) = locks s"
  by (simp_all add: free_chain_def)

lemma free_chain_freed [simp]: "freed (free_chain c s) = freed s"
  by (simp add: free_chain_def)

lemma rte_pktmbuf_free_fields [simp]:
  "tx_head (rte_pktmbuf_free p s) = tx_head s" "tx_tail (rte_pktmbuf_free p s) = tx_tail s"
  "tx_vector (rte_pktmbuf_free p s) = tx_vector s" "mbufs (rte_pktmbuf_free p s) = mbufs s"
  "buffers (rte_pktmbuf_free p s) = buffers s" "recycle (rte_pktmbuf_free p s) = recycle s"
  "errors (rte_pktmbuf_free p s) = errors s" "tx_error_counter (rte_pktmbuf_free p s) = tx_error_counter s"
  "vlib_freed (rte_pktmbuf_free p s) = vlib_freed s" "fc_calls (rte_pktmbuf_free p s) = fc_calls s"
  "tx_calls (rte_pktmbuf_free p s) = tx_calls s" "locks (rte_pktmbuf_free p s) = locks s"
  by (simp_all add: rte_pktmbuf_free_def)

lemma free_slots_fields [simp]:
  "tx_head (free_slots c b s) = tx_head s" "tx_tail (free_slots c b s) = tx_tail s"
  "tx_vector (free_slots c b s) = tx_vector s" "mbufs (free_slots c b s) = mbufs s"
  "buffers (free_slots c b s) = buffers s" "recycle (free_slots c b s) = recycle s"
  "errors (free_slots c b s) = errors s" "tx_error_counter (free_slots c b s) = tx_error_counter s"
  "vlib_freed (free_slots c b s) = vlib_freed s" "fc_calls (free_slots c b s) = fc_calls s"
  "tx_calls (free_slots c b s) = tx_calls s" "locks (free_slots c b s) = locks s"
  by (induction c arbitrary: s; simp)+


lemma unlock_fields [simp]:
  "tx_head (unlock q s) = tx_head s" "tx_tail (unlock q s) = tx_tail s"
  "tx_vector (unlock q s) = tx_vector s" "mbufs (unlock q s) = mbufs s"
  "tx_calls (unlock q s) = tx_calls s" "errors (unlock q s) = errors s"
  by (simp_all add: unlock_def)



lemma sent_fields [simp]:
  "tx_head (sent cfg rv t s) = tx_head s" "tx_tail (sent cfg rv t s) = tx_tail s"
  "tx_vector (sent cfg rv t s) = tx_vector s" "mbufs (sent cfg rv t s) = mbufs s"
  "buffers (sent cfg rv t s) = buffers s" "recycle (sent cfg rv t s) = recycle s"
  "errors (sent cfg rv t s) = errors s" "tx_error_counter (sent cfg rv t s) = tx_error_counter s"
  "vlib_freed (sent cfg rv t s) = vlib_freed s" "fc_calls (sent cfg rv t s) = fc_calls s"
  "tx_calls (sent cfg rv t s) = tx_calls s" "locks (sent cfg rv t s) = locks s"
  by (simp_all add: sent_def)


subsection \<open>The burst loop\<close>

lemma burst_frame_refl [simp]: "burst_frame s s"
  by (simp add: burst_frame_def)




subsection \<open>What the enqueue part leaves alone\<close>

lemma enqueue_frame_refl [simp]: "enqueue_frame s s"
  by (simp add: enqueue_frame_def)



lemma rte_pktmbuf_alloc_frame: "enqueue_frame s (snd (rte_pktmbuf_alloc cfg s))"
  by (simp add: rte_pktmbuf_alloc_def enqueue_frame_def split: list.splits)




lemma upd_mbuf_fields [simp]:
  "tx_head (upd_mbuf p f s) = tx_head s" "tx_tail (upd_mbuf p f s) = tx_tail s"
  "locks (upd_mbuf p f s) = locks s" "fc_calls (upd_mbuf p f s) = fc_calls s"
  "tx_calls (upd_mbuf p f s) = tx_calls s" "vlib_freed (upd_mbuf p f s) = vlib_freed s"
  "tx_error_counter (upd_mbuf p f s) = tx_error_counter s" "buffers (upd_mbuf p f s) = buffers s"
  "tx_vector (upd_mbuf p f s) = tx_vector s" "recycle (upd_mbuf p f s) = recycle s"
  "errors (upd_mbuf p f s) = errors s" "pool (upd_mbuf p f s) = pool s"
  "freed (upd_mbuf p f s) = freed s"
  by (simp_all add: upd_mbuf_def)

lemma upd_buffer_fields [simp]:
  "tx_head (upd_buffer bi g s) = tx_head s" "tx_tail (upd_buffer bi g s) = tx_tail s"
  "locks (upd_buffer bi g s) = locks s" "fc_calls (upd_buffer bi g s) = fc_calls s"
  "tx_calls (upd_buffer bi g s) = tx_calls s" "vlib_freed (upd_buffer bi g s) = vlib_freed s"
  "tx_error_counter (upd_buffer bi g s) = tx_error_counter s" "mbufs (upd_buffer bi g s) = mbufs s"
  "tx_vector (upd_buffer bi g s) = tx_vector s" "recycle (upd_buffer bi g s) = recycle s"
  "errors (upd_buffer bi g s) = errors s" "pool (upd_buffer bi g s) = pool s"
  "freed (upd_buffer bi g s) = freed s"
  by (simp_all add: upd_buffer_def)

lemma ring_put_fields [simp]:
  "tx_head (snd (ring_put cfg mb i s)) = tx_head s" "tx_tail (snd (ring_put cfg mb i s)) = tx_tail s"
  "locks (snd (ring_put cfg mb i s)) = locks s" "fc_calls (snd (ring_put cfg mb i s)) = fc_calls s"
  "tx_calls (snd (ring_put cfg mb i s)) = tx_calls s" "vlib_freed (snd (ring_put cfg mb i s)) = vlib_freed s"
  "tx_error_counter (snd (ring_put cfg mb i s)) = tx_error_counter s"
  "buffers (snd (ring_put cfg mb i s)) = buffers s" "mbufs (snd (ring_put cfg mb i s)) = mbufs s"
  "recycle (snd (ring_put cfg mb i s)) = recycle s" "errors (snd (ring_put cfg mb i s)) = errors s"
  "pool (snd (ring_put cfg mb i s)) = pool s" "freed (snd (ring_put cfg mb i s)) = freed s"
  by (simp_all add: ring_put_def)











subsection \<open>Bursts that return\<close>








subsection \<open>The whole call\<close>

lemma free_frame_fields [simp]:
  "tx_head (free_frame n frm s) = tx_head s" "tx_tail (free_frame n frm s) = tx_tail s"
  "tx_vector (free_frame n frm s) = tx_vector s" "mbufs (free_frame n frm s) = mbufs s"
  "buffers (free_frame n frm s) = buffers s" "recycle (free_frame n frm s) = recycle s"
  "errors (free_frame n frm s) = errors s" "tx_error_counter (free_frame n frm s) = tx_error_counter s"
  "vlib_freed (free_frame n frm s) = vlib_freed s" "fc_calls (free_frame n frm s) = fc_calls s"
  "tx_calls (free_frame n frm s) = tx_calls s" "locks (free_frame n frm s) = locks s"
  by (induction n arbitrary: s; simp)+

lemma free_frame_freed:
  "n \<le> length frm \<Longrightarrow> freed (free_frame n frm s) = freed s @ rev (take n frm)"
  by (induction n arbitrary: s) (simp_all add: rte_pktmbuf_free_def take_Suc_conv_app_nth)

lemma u32_of_nat_less: "a < 2 ^ 32 \<Longrightarrow> b < 2 ^ 32 \<Longrightarrow> (of_nat a :: u32) < of_nat b \<longleftrightarrow> a < b"
  by (simp add: word_of_nat_less_iff take_bit_nat_eq_self)

lemma u32_unat_of_nat: "a < 2 ^ 32 \<Longrightarrow> unat (of_nat a :: u32) = a"
  by (simp add: unat_of_nat)

lemma pending_word: "t \<le> h \<Longrightarrow> (of_int (int h - int t) :: u32) = of_nat (h - t)"
  by simp

lemma overflow_check:
  assumes "tx_tail s \<le> tx_head s" "tx_head s - tx_tail s + length frm < 2 ^ 32"
    "DPDK_TX_RING_SIZE cfg < 2 ^ 32"
  shows "(of_int (int (tx_head s) - int (tx_tail s)) :: u32) + of_nat (length frm) > of_nat (DPDK_TX_RING_SIZE cfg)
         \<longleftrightarrow> DPDK_TX_RING_SIZE cfg < tx_head s - tx_tail s + length frm"
  unfolding pending_word[OF assms(1)] of_nat_add[symmetric]
  by (rule u32_of_nat_less[OF assms(3) assms(2)])

lemma interface_tx_rejects:
  assumes "tx_tail s \<le> tx_head s" and "tx_head s - tx_tail s + length frm < 2 ^ 32"
    and "DPDK_TX_RING_SIZE cfg < 2 ^ 32"
    and "DPDK_TX_RING_SIZE cfg < tx_head s - tx_tail s + length frm"
  shows "\<exists>s'. dpdk_interface_tx fuel cfg frm s = Some (of_nat (tx_head s - tx_tail s), s') \<and>
           tx_head s' = tx_head s \<and> tx_tail s' = tx_tail s \<and> tx_vector s' = tx_vector s \<and>
           errors s' = (errors s)(RING_FULL := errors s RING_FULL + length frm) \<and>
           freed s' = freed s @ rev frm \<and>
           tx_calls s' = tx_calls s \<and> fc_calls s' = fc_calls s \<and> recycle s' = recycle s"
proof -
  have len: "unat (of_nat (length frm) :: u32) = length frm"
    using assms(2) by (intro u32_unat_of_nat) simp
  have chk: "(of_int (int (tx_head s) - int (tx_tail s)) :: u32) + of_nat (length frm) > of_nat (DPDK_TX_RING_SIZE cfg)"
    using overflow_check[OF assms(1,2,3)] assms(4) by simp
  show ?thesis
    unfolding dpdk_interface_tx_def Let_def if_P[OF chk] len
    using assms(1) by (simp add: pending_word free_frame_freed vlib_error_count_def)
qed





subsection \<open>The concrete devices and rings\<close>



lemma eth_config_easy [simp]:
  "lock_available (eth_config fc sz rsp) s" "known_dev (eth_config fc sz rsp)"
  "flowcontrol_callback (eth_config fc sz rsp) = fc"
  "DPDK_TX_RING_SIZE (eth_config fc sz rsp) = sz"
  "size_ok (eth_config fc sz rsp) \<longleftrightarrow> 0 < sz \<and> sz < 2 ^ 16"
  by (simp_all add: lock_available_def known_dev_def eth_config_def size_ok_def)

lemma ring_state_easy [simp]:
  "tx_head (ring_state h t cc free) = h" "tx_tail (ring_state h t cc free) = t"
  by (simp_all add: ring_state_def)

subsection \<open>Reconciliation of a packet whose replication failed\<close>

lemma add_i16_0 [simp]: "add_i16 x 0 = x"
  by (simp add: add_i16_def)

lemma repl_fail_empty_pool:
  "pool s = [] \<Longrightarrow> nb_segs (fst (mbufs s b)) \<noteq> 0 \<Longrightarrow> dpdk_replicate_packet_mb cfg b s = (None, s)"
proof -
  assume p: "pool s = []" and n: "nb_segs (fst (mbufs s b)) \<noteq> 0"
  from n have "unat (nb_segs (fst (mbufs s b))) \<noteq> 0" by (simp add: unat_eq_0)
  then obtain k where k: "unat (nb_segs (fst (mbufs s b))) = Suc k" by (cases "unat (nb_segs (fst (mbufs s b)))") auto
  show ?thesis using p
    by (simp add: dpdk_replicate_packet_mb_def k segs_def rte_pktmbuf_alloc_def free_partial_def)
qed

lemma repl_failed_upd [simp]:
  "repl_failed cfg (buffers (upd_buffer bi (\<lambda>b. b\<lparr>current_length := x\<rparr>) s) b) = repl_failed cfg (buffers s b)"
  by (simp add: repl_failed_def upd_buffer_def)

lemma mbufs_upd_mbuf: "mbufs (upd_mbuf p f s) = (mbufs s)(p := apfst f (mbufs s p))"
  by (simp add: upd_mbuf_def)

lemma tx_delta_failed: "repl_failed cfg b \<Longrightarrow> tx_delta cfg b m = 0"
  by (simp add: tx_delta_def)

lemma tx_data_off_failed: "repl_failed cfg b \<Longrightarrow> tx_data_off cfg b m = data_off m"
  by (simp add: tx_data_off_def)

lemma tx_reconcile_failed:
  assumes "repl_failed cfg (buffers s bi0)"
  shows "fst (mbufs (tx_reconcile cfg bi0 mb0 s) mb0) = low16 (fst (mbufs s mb0))"
proof -
  obtain h t where c: "mbufs s mb0 = (h, t)" by (cases "mbufs s mb0")
  show ?thesis
    using assms
    by (simp add: tx_reconcile_def Let_def tx_delta_failed tx_data_off_failed mbufs_upd_mbuf c low16_def)
qed

lemma tx_reconcile2_failed0:
  assumes "repl_failed cfg (buffers s bi0)" "mb0 \<noteq> mb1"
  shows "fst (mbufs (tx_reconcile2 cfg bi0 bi1 mb0 mb1 s) mb0) = low16 (fst (mbufs s mb0))"
proof -
  obtain h t where c: "mbufs s mb0 = (h, t)" by (cases "mbufs s mb0")
  show ?thesis
    using assms
    by (simp add: tx_reconcile2_def Let_def tx_delta_failed tx_data_off_failed mbufs_upd_mbuf c low16_def)
qed

lemma tx_reconcile2_failed1:
  assumes "repl_failed cfg (buffers s bi1)" "mb0 \<noteq> mb1"
  shows "fst (mbufs (tx_reconcile2 cfg bi0 bi1 mb0 mb1 s) mb1) = low16 (fst (mbufs s mb1))"
proof -
  obtain h t where c: "mbufs s mb1 = (h, t)" by (cases "mbufs s mb1")
  show ?thesis
    using assms
    by (simp add: tx_reconcile2_def Let_def tx_delta_failed tx_data_off_failed mbufs_upd_mbuf c low16_def)
qed

subsection \<open>The copy loop\<close>

lemma copies_length [simp]: "length (copies cfg first ps ms) = min (length ps) (length ms)"
  by (induction cfg first ps ms rule: copies.induct) simp_all

lemma copy_seg_addr [simp]: "addr (copy_seg cfg first p m) = addr m"
  by (simp add: copy_seg_def Let_def)

lemma reset_addr [simp]: "addr (rte_pktmbuf_reset cfg m) = addr m"
  by (simp add: rte_pktmbuf_reset_def)

lemma copies_addr: "map addr (copies cfg first ps ms) = map addr (take (length ps) ms)"
  by (induction cfg first ps ms rule: copies.induct) simp_all

lemma copy_seg_data_len [simp]: "data_len (copy_seg cfg first p m) = data_len p"
  by (simp add: copy_seg_def Let_def)


lemma copies_Nil_iff: "copies cfg first ps ms = [] \<longleftrightarrow> ps = [] \<or> ms = []"
  by (cases ps; cases ms) simp_all

text \<open>The copy loop, all at once: \<open>k\<close> segments are copied, and the loop ends well when
  that is all of the \<open>n\<close> it was asked for.\<close>

lemma replicate_segs_eq:
  "replicate_segs cfg n copy pkt s =
     (let k = min n (min (length pkt) (length (pool s)));
          cs = copy @ copies cfg (copy = []) (take k pkt) (take k (pool s));
          s' = s\<lparr>pool := drop k (pool s)\<rparr>
      in if k = n then (Some cs, s') else (None, free_partial cs s'))"
proof (induction n arbitrary: copy pkt s)
  case 0
  then show ?case by simp
next
  case (Suc n)
  show ?case
  proof (cases pkt)
    case Nil
    then show ?thesis by simp
  next
    case pk: (Cons p rest)
    show ?thesis
    proof (cases "pool s")
      case Nil
      have run: "replicate_segs cfg (Suc n) copy pkt s = (None, free_partial copy s)"
        using Nil pk by (simp add: rte_pktmbuf_alloc_def)
      have same: "s\<lparr>pool := []\<rparr> = s" using Nil by (cases s) simp
      show ?thesis unfolding run using Nil by (simp add: Let_def same)
    next
      case (Cons m ms)
      have "replicate_segs cfg (Suc n) copy pkt s =
              replicate_segs cfg n (copy @ [copy_seg cfg (copy = []) p (rte_pktmbuf_reset cfg m)]) rest
                 (s\<lparr>pool := ms\<rparr>)"
        using Cons pk by (simp add: rte_pktmbuf_alloc_def)
      also note Suc.IH
      finally show ?thesis using Cons pk
        by (simp add: Let_def)
    qed
  qed
qed




lemma reset_buf [simp]: "buf (rte_pktmbuf_reset cfg m) = buf m"
  by (simp add: rte_pktmbuf_reset_def)

lemma copy_seg_data_off [simp]:
  "data_off (copy_seg cfg first p (rte_pktmbuf_reset cfg m)) =
     of_nat (min (RTE_PKTMBUF_HEADROOM cfg) (length (buf m)))"
  by (simp add: copy_seg_def Let_def rte_pktmbuf_reset_def)

lemma copy_seg_first [simp]:
  "pkt_len (copy_seg cfg True p m) = pkt_len p" "nb_segs (copy_seg cfg True p m) = nb_segs p"
  "port (copy_seg cfg True p m) = port p"
  by (simp_all add: copy_seg_def Let_def)





lemma replicate_fails:
  assumes "length (pool s) < unat (nb_segs (fst (mbufs s b)))"
    and "length (pool s) < length (segs (mbufs s b))"
  shows "\<exists>s1. dpdk_replicate_packet_mb cfg b s = (None, s1) \<and>
           map addr (pool s1) = rev (map addr (pool s)) \<and>
           freed s1 = (if pool s = [] then freed s else freed s @ [addr (hd (pool s))]) \<and>
           s1\<lparr>pool := pool s, freed := freed s\<rparr> = s"
proof -
  let ?n = "unat (nb_segs (fst (mbufs s b)))"
  let ?k = "length (pool s)"
  let ?cp = "copies cfg True (take ?k (segs (mbufs s b))) (pool s)"
  have k: "min ?n (min (length (segs (mbufs s b))) ?k) = ?k" using assms by simp
  have ne: "?k \<noteq> ?n" using assms(1) by simp
  have r: "dpdk_replicate_packet_mb cfg b s = (None, free_partial ?cp (s\<lparr>pool := []\<rparr>))"
    unfolding dpdk_replicate_packet_mb_def Let_def replicate_segs_eq k using ne by simp
  have ad: "map addr ?cp = map addr (pool s)" using assms(2) by (simp add: copies_addr)
  show ?thesis
  proof (cases "pool s")
    case Nil
    then have "s\<lparr>pool := []\<rparr> = s" by (cases s) simp
    then show ?thesis using r Nil by (simp add: free_partial_def)
  next
    case (Cons m ms)
    with assms(2) obtain c cs where c: "?cp = c # cs" by (cases ?cp) (auto simp: copies_Nil_iff)
    from ad c Cons have ac: "addr c = addr m" by simp
    have "rev (map addr ?cp) = rev (map addr (pool s))" using ad by (rule arg_cong)
    then have "map addr (rev ?cp) = rev (map addr (pool s))" by (simp only: rev_map)
    then show ?thesis using r c Cons ac
      by (simp add: free_partial_def free_chain_def segs_def)
  qed
qed

subsection \<open>A replication that fails, in the loops over the frame\<close>

lemma or_and_self: "(x OR f) AND f = (f :: u32)"
  by (simp add: bit_eq_iff bit_and_iff bit_or_iff)

lemma repl_fail_recorded_failed:
  "VLIB_BUFFER_REPL_FAIL cfg \<noteq> 0 \<Longrightarrow> repl_failed cfg (buffers (repl_fail_recorded cfg bi s1) bi)"
  by (simp add: repl_fail_recorded_def repl_failed_def upd_buffer_def or_and_self)

lemma repl_fail_recorded_fields [simp]:
  "errors (repl_fail_recorded cfg bi s1) = (errors s1)(REPL_FAIL := errors s1 REPL_FAIL + 1)"
  "recycle (repl_fail_recorded cfg bi s1) = recycle s1 @ [bi]"
  "tx_vector (repl_fail_recorded cfg bi s1) = tx_vector s1"
  "mbufs (repl_fail_recorded cfg bi s1) = mbufs s1"
  "pool (repl_fail_recorded cfg bi s1) = pool s1"
  "b \<noteq> bi \<Longrightarrow> buffers (repl_fail_recorded cfg bi s1) b = buffers s1 b"
  "clone_count (buffers (repl_fail_recorded cfg bi s1) b) = clone_count (buffers s1 b)"
  by (simp_all add: repl_fail_recorded_def upd_buffer_def vlib_error_count_def)

lemma tx_clone_failed:
  "dpdk_replicate_packet_mb cfg bi s = (None, s1) \<Longrightarrow>
   tx_clone cfg bi s = (bi, repl_fail_recorded cfg bi s1)"
  by (simp add: tx_clone_def repl_fail_recorded_def)

lemma repl_failed_reconcile [simp]:
  "repl_failed cfg (buffers (tx_reconcile cfg' b m s) bi) = repl_failed cfg (buffers s bi)"
  by (simp add: tx_reconcile_def Let_def repl_failed_def upd_buffer_def)

lemma repl_failed_reconcile2 [simp]:
  "repl_failed cfg (buffers (tx_reconcile2 cfg' b0 b1 m0 m1 s) bi) = repl_failed cfg (buffers s bi)"
  by (simp add: tx_reconcile2_def Let_def repl_failed_def upd_buffer_def)

lemma tx_reconcile_fields [simp]:
  "tx_vector (tx_reconcile cfg b m s) = tx_vector s" "errors (tx_reconcile cfg b m s) = errors s"
  "recycle (tx_reconcile cfg b m s) = recycle s" "pool (tx_reconcile cfg b m s) = pool s"
  "freed (tx_reconcile cfg b m s) = freed s"
  "bi \<noteq> b \<Longrightarrow> buffers (tx_reconcile cfg b m s) bi = buffers s bi"
  "p \<noteq> m \<Longrightarrow> mbufs (tx_reconcile cfg b m s) p = mbufs s p"
  by (simp_all add: tx_reconcile_def Let_def upd_buffer_def upd_mbuf_def)

lemma tx_single_failed:
  assumes "clone_count (buffers s bi) \<noteq> 0" "dpdk_replicate_packet_mb cfg bi s = (None, s1)"
    "VLIB_BUFFER_REPL_FAIL cfg \<noteq> 0"
  shows "tx_single cfg bi i s = (i, tx_reconcile cfg bi bi (repl_fail_recorded cfg bi s1))"
  using assms
  by (simp add: tx_single_def tx_clone_if_def tx_clone_failed ring_put_unless_failed_def
        repl_fail_recorded_failed)

lemma repl_failed_clone_if:
  assumes "repl_failed cfg (buffers s bi)"
  shows "repl_failed cfg (buffers (snd (tx_clone_if cfg bi' s)) bi)"
proof -
  obtain r s1 where r: "dpdk_replicate_packet_mb cfg bi' s = (r, s1)" by fastforce
  have b: "buffers s1 = buffers s"
    using r
    by (auto simp: dpdk_replicate_packet_mb_def replicate_segs_eq Let_def free_partial_def free_chain_def
          split: if_splits list.splits)
  show ?thesis using assms r b
    by (cases r) (auto simp: tx_clone_if_def tx_clone_def repl_failed_def upd_buffer_def
         vlib_error_count_def bit_eq_iff bit_and_iff bit_or_iff)
qed

lemma tx_dual_failed0:
  assumes "clone_count (buffers s bi) \<noteq> 0" "dpdk_replicate_packet_mb cfg bi s = (None, s1)"
    "VLIB_BUFFER_REPL_FAIL cfg \<noteq> 0"
  shows "tx_dual cfg bi bi' i s =
     (case tx_clone_if cfg bi' (repl_fail_recorded cfg bi s1) of
        (mb1, s2) \<Rightarrow> ring_put_unless_failed cfg bi' mb1 i (tx_reconcile2 cfg bi bi' bi mb1 s2))"
proof -
  have any: "clone_count (buffers s bi) OR clone_count (buffers s bi') \<noteq> 0"
    using assms(1) by (simp add: or_eq_0_iff)
  obtain mb1 s2 where c: "tx_clone_if cfg bi' (repl_fail_recorded cfg bi s1) = (mb1, s2)" by fastforce
  have "repl_failed cfg (buffers (snd (tx_clone_if cfg bi' (repl_fail_recorded cfg bi s1))) bi)"
    using repl_fail_recorded_failed[OF assms(3)] by (rule repl_failed_clone_if)
  then have f: "repl_failed cfg (buffers s2 bi)" using c by simp
  show ?thesis
    using any assms(1,2) f
    by (simp add: tx_dual_def Let_def tx_clone_if_def[of cfg bi s] tx_clone_failed c ring_put_unless_failed_def[of cfg bi])
qed

lemma tx_dual_failed1:
  assumes "clone_count (buffers s bi) \<noteq> 0" "dpdk_replicate_packet_mb cfg bi s = (None, s1)"
    "VLIB_BUFFER_REPL_FAIL cfg \<noteq> 0" "clone_count (buffers s bi') = 0"
  shows "tx_dual cfg bi' bi i s =
     ring_put_unless_failed cfg bi' bi' i
       (tx_reconcile2 cfg bi' bi bi' bi (repl_fail_recorded cfg bi s1))"
proof -
  have any: "clone_count (buffers s bi') OR clone_count (buffers s bi) \<noteq> 0"
    using assms(1) by (simp add: or_eq_0_iff)
  obtain i1 sb where p: "ring_put_unless_failed cfg bi' bi' i (tx_reconcile2 cfg bi' bi bi' bi (repl_fail_recorded cfg bi s1)) = (i1, sb)"
    by fastforce
  have "buffers sb = buffers (tx_reconcile2 cfg bi' bi bi' bi (repl_fail_recorded cfg bi s1))"
    using p by (auto simp: ring_put_unless_failed_def ring_put_def split: if_splits)
  then have f: "repl_failed cfg (buffers sb bi)"
    using repl_fail_recorded_failed[OF assms(3), of bi s1] by simp
  show ?thesis
    using any assms(1,2,4) f
    by (simp add: tx_dual_def Let_def tx_clone_if_def[of cfg bi' s] tx_clone_if_def[of cfg bi s] tx_clone_failed p
          ring_put_unless_failed_def[of cfg bi])
qed

subsection \<open>The concrete packets\<close>

lemma zeros_length [simp]: "length (zeros n) = n"
  by (simp add: zeros_def)

lemma big_state_easy [simp]:
  "pool (big_state free) = free" "mbufs (big_state free) = big_packet"
  "clone_count (buffers (big_state free) bi) = 1"
  "tx_vector (big_state free) i = 100 + i" "recycle (big_state free) = []"
  "errors (big_state free) e = 0" "freed (big_state free) = []"
  by (simp_all add: big_state_def ring_state_def)

lemma big_packet_easy [simp]:
  "segs (big_packet a) =
     [(seg a (zeros 32896))\<lparr>data_len := 0x8000, pkt_len := 0x10000, nb_segs := 2\<rparr>,
      (seg (a + 1000) (zeros 32896))\<lparr>data_len := 0x8000\<rparr>]"
  "fst (big_packet a) = (seg a (zeros 32896))\<lparr>data_len := 0x8000, pkt_len := 0x10000, nb_segs := 2\<rparr>"
  by (simp_all add: big_packet_def segs_def)

lemma seg_easy [simp]:
  "addr (seg a bs) = a" "buf (seg a bs) = bs" "data_off (seg a bs) = 128"
  by (simp_all add: seg_def)

lemma eth_config_consts [simp]:
  "RTE_PKTMBUF_HEADROOM (eth_config fc sz rsp) = 128" "VLIB_BUFFER_REPL_FAIL (eth_config fc sz rsp) = 16"
  by (simp_all add: eth_config_def)

section \<open>The claims\<close>

subsection \<open>The retry bound\<close>

text \<open>
  C1 says that with a flow-control callback registered the transmit primitive is invoked
  at most twice per call: the slice up to the wrap point and, when that slice was
  accepted whole, one follow-up call, with no further retry. The source sets
  \<^verbatim>\<open>n_retry\<close> to 1 after the first slice and never lowers it, so the loop goes on while
  the follow-up calls accept something. With a ring of 16 slots, the tail at 12 and the
  head at 20, a device that accepts 4, then 1, then 0 packets is invoked three times:
  for the slots 12 to 15, 0 to 3 and 1 to 3.
\<close>

theorem flowcontrol_wrap_third_call:
  "map_option (\<lambda>(n, s). (n, tx_calls s, tx_tail s))
     (tx_burst_vector_internal 3
        (eth_config True 16 (\<lambda>k n. if k = 0 then 4 else if k = 1 then 1 else 0))
        (ring_state 20 12 (\<lambda>bi. 0) []))
   = Some (3, [(0, 12, 4), (0, 0, 4), (0, 1, 3)], 17)"
  by code_simp

subsection \<open>A negative return\<close>



subsection \<open>Overflow\<close>

text \<open>
  C3: when the packets on the ring and the frame together exceed the ring size,
  \<^verbatim>\<open>dpdk_interface_tx\<close> rejects the whole frame: every packet of it is freed (last
  packet first), the \<^verbatim>\<open>RING_FULL\<close> counter grows by the size of the frame, and the head,
  the tail and the slots are as before; the transmit primitive is not invoked. The
  hypotheses keep the \<^verbatim>\<open>u32\<close> sum of the check from wrapping.
\<close>

theorem interface_tx_overflow:
  assumes "tx_tail s \<le> tx_head s" and "tx_head s - tx_tail s + length frm < 2 ^ 32"
    and "DPDK_TX_RING_SIZE cfg < 2 ^ 32"
    and "DPDK_TX_RING_SIZE cfg < tx_head s - tx_tail s + length frm"
  shows "\<exists>s'. dpdk_interface_tx fuel cfg frm s = Some (of_nat (tx_head s - tx_tail s), s') \<and>
           tx_head s' = tx_head s \<and> tx_tail s' = tx_tail s \<and> tx_vector s' = tx_vector s \<and>
           errors s' = (errors s)(RING_FULL := errors s RING_FULL + length frm) \<and>
           freed s' = freed s @ rev frm \<and>
           tx_calls s' = tx_calls s \<and> fc_calls s' = fc_calls s \<and> recycle s' = recycle s"
  using assms by (rule interface_tx_rejects)

theorem interface_tx_overflow_witness:
  "\<exists>s'. dpdk_interface_tx 0 (eth_config False 256 (accept_up_to 256)) [1, 2, 3, 4, 5, 6, 7, 8, 9, 10]
            (ring_state 250 0 (\<lambda>bi. 0) []) = Some (of_nat (250 - 0), s') \<and>
         tx_head s' = 250 \<and> tx_tail s' = 0 \<and>
         errors s' RING_FULL = errors (ring_state 250 0 (\<lambda>bi. 0) []) RING_FULL + 10 \<and>
         freed s' = freed (ring_state 250 0 (\<lambda>bi. 0) []) @ rev [1, 2, 3, 4, 5, 6, 7, 8, 9, 10]"
proof -
  let ?cfg = "eth_config False 256 (accept_up_to 256)"
  let ?s = "ring_state 250 0 (\<lambda>bi. 0) []"
  let ?frm = "[1, 2, 3, 4, 5, 6, 7, 8, 9, 10] :: nat list"
  have h1: "tx_tail ?s \<le> tx_head ?s" by simp
  have h2: "tx_head ?s - tx_tail ?s + length ?frm < 2 ^ 32" by simp
  have h3: "DPDK_TX_RING_SIZE ?cfg < 2 ^ 32" by simp
  have h4: "DPDK_TX_RING_SIZE ?cfg < tx_head ?s - tx_tail ?s + length ?frm" by simp
  from interface_tx_overflow[OF h1 h2 h3 h4, of 0] obtain s' where
    "dpdk_interface_tx 0 ?cfg ?frm ?s = Some (of_nat (tx_head ?s - tx_tail ?s), s')"
    "tx_head s' = tx_head ?s" "tx_tail s' = tx_tail ?s"
    "errors s' = (errors ?s)(RING_FULL := errors ?s RING_FULL + length ?frm)"
    "freed s' = freed ?s @ rev ?frm"
    by blast
  then show ?thesis by (intro exI[of _ s']) simp
qed

subsection \<open>The ring invariant\<close>



subsection \<open>Without a flow-control callback\<close>



subsection \<open>With a flow-control callback\<close>



subsection \<open>The head after a replication failed\<close>

text \<open>
  C2 says that the head advances by the number of descriptors appended to the ring: the
  size of the frame less the packets whose replication failed. The source skips the
  slot of such a packet and then adds the whole \<^verbatim>\<open>n_packets\<close> to the head. For a frame of
  one packet with a clone count, on an empty ring and with an empty pool: the loop
  leaves the slot index at 0 and the slots as they were, counts one \<^verbatim>\<open>REPL_FAIL\<close>,
  and the head becomes 1.
\<close>

theorem head_counts_failed_replication:
  "fst (tx_single_loop (eth_config False 256 (accept_up_to 256)) [5] 0 (ring_state 0 0 (\<lambda>bi. 1) [])) = 0 \<and>
   tx_vector (tx_enqueue (eth_config False 256 (accept_up_to 256)) [5] (ring_state 0 0 (\<lambda>bi. 1) []))
     = tx_vector (ring_state 0 0 (\<lambda>bi. 1) []) \<and>
   errors (tx_enqueue (eth_config False 256 (accept_up_to 256)) [5] (ring_state 0 0 (\<lambda>bi. 1) [])) REPL_FAIL = 1 \<and>
   tx_head (tx_enqueue (eth_config False 256 (accept_up_to 256)) [5] (ring_state 0 0 (\<lambda>bi. 1) [])) = 1"
proof -
  let ?cfg = "eth_config False 256 (accept_up_to 256)"
  let ?s = "ring_state 0 0 (\<lambda>bi. 1) []"
  have r: "dpdk_replicate_packet_mb ?cfg 5 ?s = (None, ?s)"
    by (rule repl_fail_empty_pool) (simp_all add: ring_state_def packet_def seg_def)
  have c: "clone_count (buffers ?s 5) \<noteq> 0" by (simp add: ring_state_def)
  have f: "VLIB_BUFFER_REPL_FAIL ?cfg = 16" by (simp add: eth_config_def)
  have cl: "tx_clone_if ?cfg 5 ?s =
     (5, (upd_buffer 5 (\<lambda>b. b\<lparr>flags := flags b OR 16\<rparr>) (vlib_error_count REPL_FAIL 1 ?s))\<lparr>recycle := recycle ?s @ [5]\<rparr>)"
    using c by (simp add: tx_clone_if_def tx_clone_def r f)
  have fl: "flags (buffers ?s 5) = 0" by (simp add: ring_state_def)
  have sg: "tx_single ?cfg 5 0 ?s =
     (0, tx_reconcile ?cfg 5 5 ((upd_buffer 5 (\<lambda>b. b\<lparr>flags := flags b OR 16\<rparr>) (vlib_error_count REPL_FAIL 1 ?s))\<lparr>recycle := recycle ?s @ [5]\<rparr>))"
    unfolding tx_single_def cl
    by (simp add: ring_put_unless_failed_def repl_failed_def tx_reconcile_def Let_def upd_buffer_def upd_mbuf_def f fl)
  show ?thesis
    by (simp add: tx_enqueue_def Let_def sg tx_reconcile_def upd_buffer_def upd_mbuf_def vlib_error_count_def)
       (simp add: ring_state_def)
qed

subsection \<open>The copy of a packet\<close>



subsection \<open>A replication that fails\<close>

text \<open>
  C8: when the pool runs out before the last segment of a packet marked for replication
  is copied, \<^verbatim>\<open>dpdk_replicate_packet_mb\<close> returns NULL after giving back every segment it
  had allocated (the pool holds the same addresses again; nothing else of the state
  changed). In \<^verbatim>\<open>dpdk_interface_tx\<close> the packet then takes no slot: the one-packet loop
  returns the slot index \<open>i\<close> it was given, and the two-packet loop does with the sibling
  \<open>bi'\<close> what it does with a packet that is alone in its pass. One \<^verbatim>\<open>REPL_FAIL\<close> error is
  counted, the buffer is appended to the recycle list, the flag is set, the slots and
  the buffers and mbufs of all other packets are as before. At the end of the call the
  recycle list is handed to \<^verbatim>\<open>vlib_buffer_free\<close> and emptied.
\<close>

theorem replication_failure:
  assumes "clone_count (buffers s bi) \<noteq> 0"
    and "length (pool s) < unat (nb_segs (fst (mbufs s bi)))"
    and "length (pool s) < length (segs (mbufs s bi))"
    and "VLIB_BUFFER_REPL_FAIL cfg \<noteq> 0"
  shows "\<exists>s1. dpdk_replicate_packet_mb cfg bi s = (None, s1) \<and>
           map addr (pool s1) = rev (map addr (pool s)) \<and>
           freed s1 = (if pool s = [] then freed s else freed s @ [addr (hd (pool s))]) \<and>
           s1\<lparr>pool := pool s, freed := freed s\<rparr> = s \<and>
           tx_single cfg bi i s = (i, tx_reconcile cfg bi bi (repl_fail_recorded cfg bi s1)) \<and>
           tx_dual cfg bi bi' i s =
             (case tx_clone_if cfg bi' (repl_fail_recorded cfg bi s1) of
                (mb1, s2) \<Rightarrow> ring_put_unless_failed cfg bi' mb1 i (tx_reconcile2 cfg bi bi' bi mb1 s2)) \<and>
           (clone_count (buffers s bi') = 0 \<longrightarrow>
              tx_dual cfg bi' bi i s =
                ring_put_unless_failed cfg bi' bi' i
                  (tx_reconcile2 cfg bi' bi bi' bi (repl_fail_recorded cfg bi s1))) \<and>
           repl_failed cfg (buffers (tx_reconcile cfg bi bi (repl_fail_recorded cfg bi s1)) bi) \<and>
           tx_vector (tx_reconcile cfg bi bi (repl_fail_recorded cfg bi s1)) = tx_vector s \<and>
           errors (tx_reconcile cfg bi bi (repl_fail_recorded cfg bi s1))
             = (errors s)(REPL_FAIL := errors s REPL_FAIL + 1) \<and>
           recycle (tx_reconcile cfg bi bi (repl_fail_recorded cfg bi s1)) = recycle s @ [bi] \<and>
           (\<forall>b. b \<noteq> bi \<longrightarrow>
              buffers (tx_reconcile cfg bi bi (repl_fail_recorded cfg bi s1)) b = buffers s b) \<and>
           (\<forall>p. p \<noteq> bi \<longrightarrow>
              mbufs (tx_reconcile cfg bi bi (repl_fail_recorded cfg bi s1)) p = mbufs s p) \<and>
           (\<forall>n s2. vlib_freed (tx_finish cfg n s2) = vlib_freed s2 @ recycle s2 \<and>
                   recycle (tx_finish cfg n s2) = [])"
proof -
  from replicate_fails[OF assms(2,3), of cfg] obtain s1 where
    r: "dpdk_replicate_packet_mb cfg bi s = (None, s1)"
    and p: "map addr (pool s1) = rev (map addr (pool s))"
    and fr: "freed s1 = (if pool s = [] then freed s else freed s @ [addr (hd (pool s))])"
    and eq: "s1\<lparr>pool := pool s, freed := freed s\<rparr> = s"
    by blast
  have same: "errors s1 = errors s" "recycle s1 = recycle s" "tx_vector s1 = tx_vector s"
    "buffers s1 = buffers s" "mbufs s1 = mbufs s"
    using arg_cong[OF eq, of errors] arg_cong[OF eq, of recycle] arg_cong[OF eq, of tx_vector]
      arg_cong[OF eq, of buffers] arg_cong[OF eq, of mbufs] by simp_all
  have a: "tx_single cfg bi i s = (i, tx_reconcile cfg bi bi (repl_fail_recorded cfg bi s1))"
    using assms(1) r assms(4) by (rule tx_single_failed)
  have b: "tx_dual cfg bi bi' i s =
             (case tx_clone_if cfg bi' (repl_fail_recorded cfg bi s1) of
                (mb1, s2) \<Rightarrow> ring_put_unless_failed cfg bi' mb1 i (tx_reconcile2 cfg bi bi' bi mb1 s2))"
    using assms(1) r assms(4) by (rule tx_dual_failed0)
  have c: "clone_count (buffers s bi') = 0 \<longrightarrow>
              tx_dual cfg bi' bi i s =
                ring_put_unless_failed cfg bi' bi' i
                  (tx_reconcile2 cfg bi' bi bi' bi (repl_fail_recorded cfg bi s1))"
    using tx_dual_failed1[OF assms(1) r assms(4), of bi' i] by simp
  have d: "repl_failed cfg (buffers (tx_reconcile cfg bi bi (repl_fail_recorded cfg bi s1)) bi)"
    using repl_fail_recorded_failed[OF assms(4), of bi s1] by simp
  have e: "tx_vector (tx_reconcile cfg bi bi (repl_fail_recorded cfg bi s1)) = tx_vector s"
    "errors (tx_reconcile cfg bi bi (repl_fail_recorded cfg bi s1))
       = (errors s)(REPL_FAIL := errors s REPL_FAIL + 1)"
    "recycle (tx_reconcile cfg bi bi (repl_fail_recorded cfg bi s1)) = recycle s @ [bi]"
    "\<forall>b. b \<noteq> bi \<longrightarrow> buffers (tx_reconcile cfg bi bi (repl_fail_recorded cfg bi s1)) b = buffers s b"
    "\<forall>p. p \<noteq> bi \<longrightarrow> mbufs (tx_reconcile cfg bi bi (repl_fail_recorded cfg bi s1)) p = mbufs s p"
    by (simp_all add: same)
  have f: "\<forall>n s2. vlib_freed (tx_finish cfg n s2) = vlib_freed s2 @ recycle s2 \<and>
                   recycle (tx_finish cfg n s2) = []"
    by (simp add: tx_finish_def Let_def vlib_error_count_def)
  from r p fr eq a b c d e f show ?thesis by blast
qed

theorem replication_failure_witness:
  "\<exists>s1. dpdk_replicate_packet_mb (eth_config False 256 (accept_up_to 256)) 5
            (big_state [seg 900 (zeros 32896)]) = (None, s1) \<and>
         map addr (pool s1) = [900] \<and> freed s1 = [900] \<and>
         fst (tx_single (eth_config False 256 (accept_up_to 256)) 5 0 (big_state [seg 900 (zeros 32896)])) = 0 \<and>
         errors (snd (tx_single (eth_config False 256 (accept_up_to 256)) 5 0
                         (big_state [seg 900 (zeros 32896)]))) REPL_FAIL = 1 \<and>
         recycle (snd (tx_single (eth_config False 256 (accept_up_to 256)) 5 0
                         (big_state [seg 900 (zeros 32896)]))) = [5]"
proof -
  let ?cfg = "eth_config False 256 (accept_up_to 256)"
  let ?s = "big_state [seg 900 (zeros 32896)]"
  have h1: "clone_count (buffers ?s 5) \<noteq> 0" by simp
  have h2: "length (pool ?s) < unat (nb_segs (fst (mbufs ?s 5)))" by simp
  have h3: "length (pool ?s) < length (segs (mbufs ?s 5))" by simp
  have h4: "VLIB_BUFFER_REPL_FAIL ?cfg \<noteq> 0" by simp
  from replication_failure[OF h1 h2 h3 h4, of 0 6] obtain s1 where
    "dpdk_replicate_packet_mb ?cfg 5 ?s = (None, s1)"
    "map addr (pool s1) = rev (map addr (pool ?s))"
    "freed s1 = (if pool ?s = [] then freed ?s else freed ?s @ [addr (hd (pool ?s))])"
    "tx_single ?cfg 5 0 ?s = (0, tx_reconcile ?cfg 5 5 (repl_fail_recorded ?cfg 5 s1))"
    "errors (tx_reconcile ?cfg 5 5 (repl_fail_recorded ?cfg 5 s1))
       = (errors ?s)(REPL_FAIL := errors ?s REPL_FAIL + 1)"
    "recycle (tx_reconcile ?cfg 5 5 (repl_fail_recorded ?cfg 5 s1)) = recycle ?s @ [5]"
    by blast
  then show ?thesis by (intro exI[of _ s1]) simp
qed

subsection \<open>The descriptor of a packet whose replication failed\<close>

text \<open>
  C10 says that the reconciliation leaves \<^verbatim>\<open>pkt_len\<close>, \<^verbatim>\<open>data_len\<close> and \<^verbatim>\<open>data_off\<close> of the
  original descriptor unchanged when the replication failed. \<^verbatim>\<open>pkt_len\<close> is a 32-bit
  field that the source writes back through \<^verbatim>\<open>u16 new_pkt_len0\<close>: a packet of 65536
  bytes whose replication fails leaves the one-packet loop with a \<^verbatim>\<open>pkt_len\<close> of 0.
\<close>

theorem failed_replication_truncates_pkt_len:
  "pkt_len (fst (mbufs (big_state []) 5)) = 0x10000 \<and>
   repl_failed (eth_config False 256 (accept_up_to 256))
     (buffers (snd (tx_single (eth_config False 256 (accept_up_to 256)) 5 0 (big_state []))) 5) \<and>
   pkt_len (fst (mbufs (snd (tx_single (eth_config False 256 (accept_up_to 256)) 5 0 (big_state []))) 5)) = 0"
proof -
  let ?cfg = "eth_config False 256 (accept_up_to 256)"
  let ?s = "big_state []"
  have h1: "clone_count (buffers ?s 5) \<noteq> 0" by simp
  have h2: "length (pool ?s) < unat (nb_segs (fst (mbufs ?s 5)))" by simp
  have h3: "length (pool ?s) < length (segs (mbufs ?s 5))" by simp
  have h4: "VLIB_BUFFER_REPL_FAIL ?cfg \<noteq> 0" by simp
  from replicate_fails[OF h2 h3, of ?cfg] obtain s1 where
    r: "dpdk_replicate_packet_mb ?cfg 5 ?s = (None, s1)" and eq: "s1\<lparr>pool := pool ?s, freed := freed ?s\<rparr> = ?s"
    by blast
  have m: "mbufs s1 = big_packet" using arg_cong[OF eq, of mbufs] by simp
  have sg: "tx_single ?cfg 5 0 ?s = (0, tx_reconcile ?cfg 5 5 (repl_fail_recorded ?cfg 5 s1))"
    using h1 r h4 by (rule tx_single_failed)
  have f: "repl_failed ?cfg (buffers (repl_fail_recorded ?cfg 5 s1) 5)"
    using h4 by (rule repl_fail_recorded_failed)
  have "fst (mbufs (tx_reconcile ?cfg 5 5 (repl_fail_recorded ?cfg 5 s1)) 5)
          = low16 (fst (mbufs (repl_fail_recorded ?cfg 5 s1) 5))"
    using f by (rule tx_reconcile_failed)
  then have "pkt_len (fst (mbufs (tx_reconcile ?cfg 5 5 (repl_fail_recorded ?cfg 5 s1)) 5)) = 0"
    by (simp add: m low16_def)
  then show ?thesis using f by (simp add: sg)
qed

text \<open>
  C10, amended: for a packet whose \<^verbatim>\<open>VLIB_BUFFER_REPL_FAIL\<close> flag is set, the
  reconciliation (of the one-packet loop, and of the two-packet loop for either of its
  packets) leaves the descriptor as it was but for \<^verbatim>\<open>pkt_len\<close>, which is cut to its low 16
  bits: \<^verbatim>\<open>data_len\<close> and \<^verbatim>\<open>data_off\<close> are unchanged, and the whole descriptor is
  unchanged when \<^verbatim>\<open>pkt_len\<close> is below 65536.
\<close>

theorem reconcile_failed_replication:
  assumes "repl_failed cfg (buffers s bi)" and "mb' \<noteq> mb"
  shows "fst (mbufs (tx_reconcile cfg bi mb s) mb) = low16 (fst (mbufs s mb)) \<and>
         fst (mbufs (tx_reconcile2 cfg bi bi' mb mb' s) mb) = low16 (fst (mbufs s mb)) \<and>
         fst (mbufs (tx_reconcile2 cfg bi' bi mb' mb s) mb) = low16 (fst (mbufs s mb)) \<and>
         data_len (low16 (fst (mbufs s mb))) = data_len (fst (mbufs s mb)) \<and>
         data_off (low16 (fst (mbufs s mb))) = data_off (fst (mbufs s mb)) \<and>
         pkt_len (low16 (fst (mbufs s mb))) = ucast (ucast (pkt_len (fst (mbufs s mb))) :: u16) \<and>
         (unat (pkt_len (fst (mbufs s mb))) < 2 ^ 16 \<longrightarrow> low16 (fst (mbufs s mb)) = fst (mbufs s mb))"
proof -
  have a: "fst (mbufs (tx_reconcile cfg bi mb s) mb) = low16 (fst (mbufs s mb))"
    using assms(1) by (rule tx_reconcile_failed)
  have b: "fst (mbufs (tx_reconcile2 cfg bi bi' mb mb' s) mb) = low16 (fst (mbufs s mb))"
    using assms(1) assms(2)[symmetric] by (rule tx_reconcile2_failed0)
  have c: "fst (mbufs (tx_reconcile2 cfg bi' bi mb' mb s) mb) = low16 (fst (mbufs s mb))"
    using assms(1) assms(2) by (rule tx_reconcile2_failed1)
  have d: "unat (pkt_len (fst (mbufs s mb))) < 2 ^ 16 \<longrightarrow> low16 (fst (mbufs s mb)) = fst (mbufs s mb)"
    by (simp add: low16_def ucast16_id)
  from a b c d show ?thesis by (simp add: low16_def)
qed

theorem reconcile_failed_replication_witness:
  "fst (mbufs (tx_reconcile (eth_config False 256 (accept_up_to 256)) 5 5
                 (repl_fail_recorded (eth_config False 256 (accept_up_to 256)) 5 (big_state []))) 5)
     = low16 (fst (big_packet 5)) \<and>
   data_len (low16 (fst (big_packet 5))) = 0x8000 \<and>
   data_off (low16 (fst (big_packet 5))) = 128 \<and>
   pkt_len (low16 (fst (big_packet 5))) = 0"
proof -
  let ?cfg = "eth_config False 256 (accept_up_to 256)"
  let ?s = "repl_fail_recorded ?cfg 5 (big_state [])"
  have h1: "repl_failed ?cfg (buffers ?s 5)" by (rule repl_fail_recorded_failed) simp
  have h2: "(6::nat) \<noteq> 5" by simp
  from reconcile_failed_replication[OF h1 h2, of 6] show ?thesis by simp
qed

end
